theory Spec2Isabelle
  imports Complex_Main "HOL-Library.Word" "HOL-Library.Multiset"
begin

section \<open>JavaScript values and strings\<close>

text \<open>
  A property of a JavaScript object read from JSON is absent (\<open>undefined\<close>), \<open>null\<close>
  or a value. The difference matters when an object is sent to the store: an absent key
  leaves its column to the column's default, a \<open>null\<close> is written as NULL.
\<close>

datatype 'a js = Undefined | Null | Val 'a

text \<open>
  Strings are HOL strings. \<open>String.prototype.trim\<close> removes white space and line
  terminators from both ends; \<open>toLowerCase\<close> maps the letters A to Z to a to z. Characters
  beyond ASCII are outside the model: they are never white space and have no lower case.
\<close>

definition is_space :: "char \<Rightarrow> bool" where
  "is_space c = (c \<in> set [CHR 0x09, CHR 0x0A, CHR 0x0B, CHR 0x0C, CHR 0x0D, CHR 0x20])"

definition trim :: "string \<Rightarrow> string" where
  "trim s = rev (dropWhile is_space (rev (dropWhile is_space s)))"

definition lower_char :: "char \<Rightarrow> char" where
  "lower_char c =
     (case map_of (zip ''ABCDEFGHIJKLMNOPQRSTUVWXYZ'' ''abcdefghijklmnopqrstuvwxyz'') c of
        None \<Rightarrow> c
      | Some d \<Rightarrow> d)"

definition toLowerCase :: "string \<Rightarrow> string" where
  "toLowerCase s = map lower_char s"

section \<open>The store: table \<open>brand_combos\<close> and function \<open>increment_votes\<close>\<close>

text \<open>
  The migration declares the table. A \<open>uuid\<close> is a 128-bit value, \<open>integer\<close> is the
  32-bit signed integer of PostgreSQL, a column without \<open>NOT NULL\<close> may hold NULL
  (\<open>None\<close>). A table is the list of its rows. The argument of \<open>increment_votes\<close> is
  typed \<open>uuid\<close>: text that is not a uuid never reaches the function.
\<close>

type_synonym uuid = "128 word"
type_synonym timestamptz = int

record brand_combos =
  row_id :: uuid
  name :: string
  slogan :: "string option"
  description :: "string option"
  product1 :: string
  product2 :: string
  mode :: "string option"
  votes :: "int option"
  host_reaction :: "string option"
  image_url :: "string option"
  compatibility_score :: "int option"
  created_at :: "timestamptz option"
  updated_at :: "timestamptz option"

type_synonym table = "brand_combos list"

text \<open>
  What a call of the store or of the backend can end in. A JavaScript \<open>throw\<close> is the
  \<open>Inl\<close> of a sum. \<open>AxiosError m e\<close> is a rejected HTTP request with \<open>error.message = m\<close>
  and \<open>error.response?.data?.error = e\<close>; \<open>Error m\<close> is \<open>new Error(m)\<close>.
\<close>

datatype error =
    StoreUnavailable
  | NotNullViolation string
  | UniqueViolation
  | IntegerOutOfRange
  | TypeError
  | AxiosError string "string js"
  | Error string

text \<open>
  \<open>votes + 1\<close> in SQL: NULL stays NULL, and PostgreSQL raises
  \<open>integer out of range\<close> instead of wrapping around.
\<close>

definition int4_max :: int where
  "int4_max = 2147483647"

definition int4_min :: int where
  "int4_min = - 2147483648"

definition int4_plus :: "int option \<Rightarrow> int \<Rightarrow> error + int option" where
  "int4_plus x k =
     (case x of
        None \<Rightarrow> Inr None
      | Some v \<Rightarrow>
          if v + k > int4_max \<or> v + k < int4_min then Inl IntegerOutOfRange
          else Inr (Some (v + k)))"

text \<open>
  \<^verbatim>\<open>UPDATE brand_combos SET votes = votes + 1, updated_at = now() WHERE id = combo_id;\<close>
  The statement visits every row; an error in one row aborts the whole statement and
  leaves the table as it was. The function returns \<open>void\<close>.
\<close>

fun increment_votes :: "timestamptz \<Rightarrow> uuid \<Rightarrow> table \<Rightarrow> error + table" where
  "increment_votes ts cid [] = Inr []"
| "increment_votes ts cid (r # rs) =
     (if row_id r = cid then
        (case int4_plus (votes r) 1 of
           Inl e \<Rightarrow> Inl e
         | Inr v \<Rightarrow>
             (case increment_votes ts cid rs of
                Inl e \<Rightarrow> Inl e
              | Inr rs' \<Rightarrow> Inr (r\<lparr>votes := v, updated_at := Some ts\<rparr> # rs')))
      else
        (case increment_votes ts cid rs of
           Inl e \<Rightarrow> Inl e
         | Inr rs' \<Rightarrow> Inr (r # rs')))"

text \<open>
  One call of the store happens in an environment the client does not control: whether
  the call reaches the store and is accepted, the value of \<open>now()\<close> and the value of
  \<open>gen_random_uuid()\<close>.
\<close>

record server =
  available :: bool
  now :: timestamptz
  gen_random_uuid :: uuid

text \<open>
  The object \<open>apiService.generateCombo\<close> sends to \<open>createCombo\<close>. \<open>JSON.stringify\<close> drops
  the keys whose value is \<open>undefined\<close>.
\<close>

record combo_insert =
  ins_name :: "string js"
  ins_slogan :: "string js"
  ins_description :: "string js"
  ins_product1 :: "string js"
  ins_product2 :: "string js"
  ins_mode :: "string js"
  ins_votes :: "int js"
  ins_host_reaction :: "string js"

definition column :: "'a option \<Rightarrow> 'a js \<Rightarrow> 'a option" where
  "column dflt x = (case x of Undefined \<Rightarrow> dflt | Null \<Rightarrow> None | Val v \<Rightarrow> Some v)"

definition not_null :: "string \<Rightarrow> 'a js \<Rightarrow> error + 'a" where
  "not_null col x = (case x of Val v \<Rightarrow> Inr v | _ \<Rightarrow> Inl (NotNullViolation col))"

text \<open>
  \<^verbatim>\<open>INSERT INTO brand_combos (...) VALUES (...) RETURNING *\<close>: the row the statement
  writes, or the error that rejects it. Columns the object does not name take their
  defaults: \<open>id\<close>, \<open>created_at\<close>, \<open>updated_at\<close>, \<open>compatibility_score\<close>; \<open>image_url\<close> has none.
  A \<open>votes\<close> left out would default to 0.
\<close>

definition int4_column :: "int js \<Rightarrow> error + int option" where
  "int4_column x =
     (case x of
        Undefined \<Rightarrow> Inr (Some 0)
      | Null \<Rightarrow> Inr None
      | Val v \<Rightarrow> if v > int4_max \<or> v < int4_min then Inl IntegerOutOfRange else Inr (Some v))"

definition new_row :: "server \<Rightarrow> combo_insert \<Rightarrow> table \<Rightarrow> error + brand_combos" where
  "new_row srv c tbl =
     (case int4_column (ins_votes c) of Inl e \<Rightarrow> Inl e | Inr v \<Rightarrow>
     (case not_null ''name'' (ins_name c) of Inl e \<Rightarrow> Inl e | Inr n \<Rightarrow>
     (case not_null ''product1'' (ins_product1 c) of Inl e \<Rightarrow> Inl e | Inr p1 \<Rightarrow>
     (case not_null ''product2'' (ins_product2 c) of Inl e \<Rightarrow> Inl e | Inr p2 \<Rightarrow>
        if gen_random_uuid srv \<in> set (map row_id tbl) then Inl UniqueViolation
        else Inr \<lparr>row_id = gen_random_uuid srv, name = n,
               slogan = column None (ins_slogan c),
               description = column None (ins_description c),
               product1 = p1, product2 = p2,
               mode = column (Some ''competitive'') (ins_mode c),
               votes = v,
               host_reaction = column None (ins_host_reaction c),
               image_url = None, compatibility_score = Some 0,
               created_at = Some (now srv), updated_at = Some (now srv)\<rparr>))))"

text \<open>
  \<^verbatim>\<open>SELECT * FROM brand_combos ORDER BY votes DESC LIMIT limit\<close>. In descending order
  PostgreSQL puts NULL first. The order of rows with equal votes is not specified by SQL;
  the model keeps them in table order.
\<close>

definition votes_ge :: "int option \<Rightarrow> int option \<Rightarrow> bool" where
  "votes_ge x y =
     (case x of None \<Rightarrow> True | Some a \<Rightarrow> (case y of None \<Rightarrow> False | Some b \<Rightarrow> b \<le> a))"

fun insert_desc :: "brand_combos \<Rightarrow> table \<Rightarrow> table" where
  "insert_desc r [] = [r]"
| "insert_desc r (s # ss) =
     (if votes_ge (votes r) (votes s) then r # s # ss else s # insert_desc r ss)"

definition order_by_votes_desc :: "table \<Rightarrow> table" where
  "order_by_votes_desc tbl = foldr insert_desc tbl []"

section \<open>The Supabase client: \<open>frontend/lib/supabase.js\<close>\<close>

text \<open>
  Every external call a function makes is recorded, in order. A function that writes
  returns the calls, the table after it and its result; one that reads returns the calls
  and its result.
\<close>

record gen_request =
  req_product1 :: string
  req_product2 :: string
  req_mode :: string

datatype call =
    PostGenerate gen_request
  | PostVote uuid
  | GetLeaderboard nat
  | GetStats
  | Insert combo_insert
  | Rpc string uuid
  | SelectOrderLimit nat
  | SelectVotes

definition supabaseOperations_getCombos ::
  "server \<Rightarrow> nat option \<Rightarrow> table \<Rightarrow> call list \<times> (error + table)" where
  "supabaseOperations_getCombos srv limit_arg tbl =
     (let limit = (case limit_arg of None \<Rightarrow> 10 | Some n \<Rightarrow> n) in
      ([SelectOrderLimit limit],
       if available srv then Inr (take limit (order_by_votes_desc tbl))
       else Inl StoreUnavailable))"

definition supabaseOperations_createCombo ::
  "server \<Rightarrow> combo_insert \<Rightarrow> table \<Rightarrow> call list \<times> table \<times> (error + brand_combos)" where
  "supabaseOperations_createCombo srv c tbl =
     ([Insert c],
      if available srv then
        (case new_row srv c tbl of
           Inl e \<Rightarrow> (tbl, Inl e)
         | Inr r \<Rightarrow> (tbl @ [r], Inr r))
      else (tbl, Inl StoreUnavailable))"

definition supabaseOperations_voteForCombo ::
  "server \<Rightarrow> uuid \<Rightarrow> table \<Rightarrow> call list \<times> table \<times> (error + unit)" where
  "supabaseOperations_voteForCombo srv comboId tbl =
     ([Rpc ''increment_votes'' comboId],
      if available srv then
        (case increment_votes (now srv) comboId tbl of
           Inl e \<Rightarrow> (tbl, Inl e)
         | Inr tbl' \<Rightarrow> (tbl', Inr ()))
      else (tbl, Inl StoreUnavailable))"

text \<open>
  \<open>getStats\<close> reads the \<open>votes\<close> column and folds it on the client.
  \<open>sum + combo.votes\<close> with \<open>combo.votes = null\<close> is \<open>sum\<close>. JavaScript numbers are
  doubles; sums of 32-bit integers are exact below \<open>2^53\<close>, and the model adds integers.
\<close>

record stats =
  totalCombos :: int
  totalVotes :: int

definition js_plus :: "int \<Rightarrow> int option \<Rightarrow> int" where
  "js_plus acc v = (case v of None \<Rightarrow> acc | Some n \<Rightarrow> acc + n)"

definition supabaseOperations_getStats :: "server \<Rightarrow> table \<Rightarrow> call list \<times> (error + stats)" where
  "supabaseOperations_getStats srv tbl =
     ([SelectVotes],
      if available srv then
        (let data = map votes tbl in
         Inr \<lparr>totalCombos = int (length data), totalVotes = foldl js_plus 0 data\<rparr>)
      else Inl StoreUnavailable)"

section \<open>The backend, as the client sees it\<close>

text \<open>
  The Flask backend is reached over HTTP. To the client it is the outcome of each
  request: the response body, or the error the request is rejected with. What the body
  of \<open>POST /generate\<close> holds is the backend's choice, so each property of the combo may be
  absent. What the backend itself writes to its store is not part of the client's code
  and not part of the table below.
\<close>

record components =
  comp_a :: "string js"
  comp_b :: "string js"

record combo =
  combo_id :: "uuid js"
  combo_name :: "string js"
  combo_slogan :: "string js"
  flavor_description :: "string js"
  components :: "components js"
  combo_mode :: "string js"
  combo_votes :: "int js"
  combo_host_reaction :: "string js"

record generate_response =
  resp_combo :: "combo js"

record vote_response =
  status :: string

record leaderboard =
  combos :: "table js"

record backend =
  post_generate :: "gen_request \<Rightarrow> error + generate_response"
  post_vote :: "uuid \<Rightarrow> error + vote_response"
  get_leaderboard :: "nat \<Rightarrow> error + leaderboard"
  get_stats :: "error + stats"

definition message :: "error \<Rightarrow> string" where
  "message e = (case e of AxiosError m x \<Rightarrow> m | Error m \<Rightarrow> m | _ \<Rightarrow> [])"

definition response_error :: "error \<Rightarrow> string js" where
  "response_error e = (case e of AxiosError m x \<Rightarrow> x | _ \<Rightarrow> Undefined)"

text \<open>\<open>x || d\<close> on a string that may be absent: the empty string is falsy too.\<close>

definition js_or :: "string js \<Rightarrow> string \<Rightarrow> string" where
  "js_or x d = (case x of Val s \<Rightarrow> if s = [] then d else s | _ \<Rightarrow> d)"

section \<open>The service layer: \<open>frontend/lib/api.js\<close>\<close>

text \<open>
  The body of the inner \<open>try\<close> of \<open>generateCombo\<close>: build the object from
  \<open>response.data.combo\<close> (reading a property of an absent \<open>combo\<close> or of an absent
  \<open>combo.components\<close> throws a \<open>TypeError\<close> before any call), then \<open>createCombo\<close>.
\<close>

definition save_to_supabase ::
  "server \<Rightarrow> generate_response \<Rightarrow> table \<Rightarrow> call list \<times> table \<times> (error + brand_combos)" where
  "save_to_supabase srv response tbl =
     (case resp_combo response of
        Val c \<Rightarrow>
          (case components c of
             Val cs \<Rightarrow>
               supabaseOperations_createCombo srv
                 \<lparr>ins_name = combo_name c, ins_slogan = combo_slogan c,
                  ins_description = flavor_description c,
                  ins_product1 = comp_a cs, ins_product2 = comp_b cs,
                  ins_mode = combo_mode c, ins_votes = Val 0,
                  ins_host_reaction = combo_host_reaction c\<rparr> tbl
           | _ \<Rightarrow> ([], tbl, Inl TypeError))
      | _ \<Rightarrow> ([], tbl, Inl TypeError))"

text \<open>
  \<open>generateCombo(product1, product2, mode = 'competitive')\<close>: an omitted \<open>mode\<close> is
  \<open>None\<close>. The inner \<open>catch\<close> only logs; the outer one rethrows a new \<open>Error\<close>.
\<close>

definition apiService_generateCombo ::
  "backend \<Rightarrow> server \<Rightarrow> string \<Rightarrow> string \<Rightarrow> string option \<Rightarrow> table
     \<Rightarrow> call list \<times> table \<times> (error + generate_response)" where
  "apiService_generateCombo be srv p1 p2 mode_arg tbl =
     (let req = \<lparr>req_product1 = trim p1, req_product2 = trim p2,
                req_mode = (case mode_arg of None \<Rightarrow> ''competitive'' | Some m \<Rightarrow> m)\<rparr> in
      case post_generate be req of
        Inl e \<Rightarrow>
          ([PostGenerate req], tbl,
           Inl (Error (js_or (response_error e) ''Failed to generate combo'')))
      | Inr response \<Rightarrow>
          (case save_to_supabase srv response tbl of
             (calls, tbl', saved) \<Rightarrow> (PostGenerate req # calls, tbl', Inr response)))"

definition apiService_getLeaderboard ::
  "backend \<Rightarrow> server \<Rightarrow> nat option \<Rightarrow> table \<Rightarrow> call list \<times> (error + leaderboard)" where
  "apiService_getLeaderboard be srv limit_arg tbl =
     (let limit = (case limit_arg of None \<Rightarrow> 10 | Some n \<Rightarrow> n) in
      case supabaseOperations_getCombos srv (Some limit) tbl of
        (calls, Inr supabaseData) \<Rightarrow> (calls, Inr \<lparr>combos = Val supabaseData\<rparr>)
      | (calls, Inl supabaseError) \<Rightarrow> (calls @ [GetLeaderboard limit], get_leaderboard be limit))"

definition apiService_voteForCombo ::
  "backend \<Rightarrow> server \<Rightarrow> uuid \<Rightarrow> table \<Rightarrow> call list \<times> table \<times> (error + vote_response)" where
  "apiService_voteForCombo be srv comboId tbl =
     (case supabaseOperations_voteForCombo srv comboId tbl of
        (calls, tbl', Inr u) \<Rightarrow> (calls, tbl', Inr \<lparr>status = ''voted''\<rparr>)
      | (calls, tbl', Inl supabaseError) \<Rightarrow> (calls @ [PostVote comboId], tbl', post_vote be comboId))"

definition apiService_getStats :: "server \<Rightarrow> table \<Rightarrow> call list \<times> (error + stats)" where
  "apiService_getStats srv tbl =
     (case supabaseOperations_getStats srv tbl of
        (calls, Inr s) \<Rightarrow> (calls, Inr s)
      | (calls, Inl supabaseError) \<Rightarrow> (calls, Inr \<lparr>totalCombos = 0, totalVotes = 0\<rparr>))"

section \<open>The component \<open>BrandMixer\<close>\<close>

text \<open>
  The state of the component, and the state each handler leaves once its promise has
  settled. There are two versions of the component; they differ in the second check of
  \<open>handleGenerate\<close>, and only the first has \<open>handleVote\<close>.
\<close>

record mixer_state =
  st_product1 :: string
  st_product2 :: string
  st_mode :: string
  st_loading :: bool
  st_result :: "combo js"
  st_error :: string

definition generate_and_show ::
  "string \<Rightarrow> backend \<Rightarrow> server \<Rightarrow> mixer_state \<Rightarrow> table \<Rightarrow> call list \<times> table \<times> mixer_state" where
  "generate_and_show dflt be srv st tbl =
     (case apiService_generateCombo be srv (st_product1 st) (st_product2 st)
             (Some (st_mode st)) tbl of
        (calls, tbl', Inr response) \<Rightarrow>
          (calls, tbl', st\<lparr>st_loading := False, st_error := [], st_result := resp_combo response\<rparr>)
      | (calls, tbl', Inl err) \<Rightarrow>
          (calls, tbl',
           st\<lparr>st_loading := False, st_error := js_or (Val (message err)) dflt,
              st_result := Null\<rparr>))"

text \<open>The version with \<open>handleVote\<close> trims before it compares.\<close>

definition handleGenerate ::
  "backend \<Rightarrow> server \<Rightarrow> mixer_state \<Rightarrow> table \<Rightarrow> call list \<times> table \<times> mixer_state" where
  "handleGenerate be srv st tbl =
     (if trim (st_product1 st) = [] \<or> trim (st_product2 st) = [] then
        ([], tbl, st\<lparr>st_error := ''Please enter both brand names''\<rparr>)
      else if toLowerCase (trim (st_product1 st)) = toLowerCase (trim (st_product2 st)) then
        ([], tbl, st\<lparr>st_error := ''Please select two different brands''\<rparr>)
      else generate_and_show ''Failed to generate combo. Please try again.'' be srv st tbl)"

text \<open>\<open>frontend/components/BrandMixer.jsx\<close> compares the names as they were typed.\<close>

definition handleGenerate_frontend ::
  "backend \<Rightarrow> server \<Rightarrow> mixer_state \<Rightarrow> table \<Rightarrow> call list \<times> table \<times> mixer_state" where
  "handleGenerate_frontend be srv st tbl =
     (if trim (st_product1 st) = [] \<or> trim (st_product2 st) = [] then
        ([], tbl, st\<lparr>st_error := ''Please enter both brand names''\<rparr>)
      else if toLowerCase (st_product1 st) = toLowerCase (st_product2 st) then
        ([], tbl, st\<lparr>st_error := ''Please select two different brands''\<rparr>)
      else generate_and_show ''Failed to generate combo'' be srv st tbl)"

text \<open>
  \<open>if (!result?.id) return\<close>: nothing happens without a result or without an id.
  \<open>(prev.votes || 0) + 1\<close> counts an absent \<open>votes\<close> as 0. A failed vote is only logged.
\<close>

definition js_votes :: "int js \<Rightarrow> int" where
  "js_votes v = (case v of Val n \<Rightarrow> n | _ \<Rightarrow> 0)"

definition handleVote ::
  "backend \<Rightarrow> server \<Rightarrow> mixer_state \<Rightarrow> table \<Rightarrow> call list \<times> table \<times> mixer_state" where
  "handleVote be srv st tbl =
     (case st_result st of
        Val result \<Rightarrow>
          (case combo_id result of
             Val i \<Rightarrow>
               (case apiService_voteForCombo be srv i tbl of
                  (calls, tbl', Inr voted) \<Rightarrow>
                    (calls, tbl',
                     st\<lparr>st_result := Val (result\<lparr>combo_votes := Val (js_votes (combo_votes result) + 1)\<rparr>)\<rparr>)
                | (calls, tbl', Inl err) \<Rightarrow> (calls, tbl', st))
           | _ \<Rightarrow> ([], tbl, st))
      | _ \<Rightarrow> ([], tbl, st))"

section \<open>The component \<open>Leaderboard\<close>\<close>

text \<open>
  \<open>Leaderboard.jsx\<close> uses the object \<open>api\<close>, whose methods ask the backend and rethrow
  a failure as a new \<open>Error\<close>.
\<close>

definition api_getStats :: "backend \<Rightarrow> call list \<times> (error + stats)" where
  "api_getStats be =
     ([GetStats],
      case get_stats be of
        Inr data \<Rightarrow> Inr data
      | Inl e \<Rightarrow> Inl (Error (''Failed to get stats: '' @ message e)))"

definition api_getLeaderboard :: "backend \<Rightarrow> nat option \<Rightarrow> call list \<times> (error + leaderboard)" where
  "api_getLeaderboard be limit_arg =
     (let limit = (case limit_arg of None \<Rightarrow> 10 | Some n \<Rightarrow> n) in
      ([GetLeaderboard limit],
       case get_leaderboard be limit of
         Inr data \<Rightarrow> Inr data
       | Inl e \<Rightarrow> Inl (Error (js_or (response_error e) ''Failed to get leaderboard''))))"

record leaderboard_state =
  lb_combos :: table
  lb_loading :: bool
  lb_error :: string
  lb_stats :: stats

definition initial_leaderboard :: leaderboard_state where
  "initial_leaderboard =
     \<lparr>lb_combos = [], lb_loading = True, lb_error = [],
      lb_stats = \<lparr>totalCombos = 0, totalVotes = 0\<rparr>\<rparr>"

definition fetchLeaderboard :: "backend \<Rightarrow> leaderboard_state \<Rightarrow> call list \<times> leaderboard_state" where
  "fetchLeaderboard be st =
     (case api_getLeaderboard be (Some 10) of
        (calls, Inr response) \<Rightarrow>
          (calls,
           st\<lparr>lb_loading := False, lb_error := [],
              lb_combos := (case combos response of Val cs \<Rightarrow> cs | _ \<Rightarrow> [])\<rparr>)
      | (calls, Inl err) \<Rightarrow>
          (calls,
           st\<lparr>lb_loading := False,
              lb_error := js_or (Val (message err)) ''Failed to load leaderboard''\<rparr>))"

definition fetchStats :: "backend \<Rightarrow> leaderboard_state \<Rightarrow> call list \<times> leaderboard_state" where
  "fetchStats be st =
     (case api_getStats be of
        (calls, Inr statsData) \<Rightarrow> (calls, st\<lparr>lb_stats := statsData\<rparr>)
      | (calls, Inl err) \<Rightarrow> (calls, st))"

text \<open>
  The number shown as the average:
  \<^verbatim>\<open>combos.length > 0 ? Math.round(stats.totalVotes / stats.totalCombos) : 0\<close>.
  A JavaScript division by zero does not throw: it gives \<open>NaN\<close> or an infinity.
  \<open>Math.round\<close> rounds halves up and keeps \<open>NaN\<close> and the infinities.
\<close>

datatype number = Finite rat | NaN | PosInfinity | NegInfinity

definition js_divide :: "int \<Rightarrow> int \<Rightarrow> number" where
  "js_divide x y =
     (if y = 0 then (if x = 0 then NaN else if x > 0 then PosInfinity else NegInfinity)
      else Finite (of_int x / of_int y))"

definition Math_round :: "number \<Rightarrow> number" where
  "Math_round x = (case x of Finite q \<Rightarrow> Finite (of_int \<lfloor>q + 1 / 2\<rfloor>) | _ \<Rightarrow> x)"

definition avgVotes :: "leaderboard_state \<Rightarrow> number" where
  "avgVotes st =
     (if length (lb_combos st) > 0
      then Math_round (js_divide (totalVotes (lb_stats st)) (totalCombos (lb_stats st)))
      else Finite 0)"

section \<open>The backend's \<open>POST /generate\<close>\<close>

text \<open>
  Modelled from the spec: the handler of \<open>POST /generate\<close> in the Flask backend
  (\<open>backend/app.py\<close>), which is not among the sources. By the specification it trims both
  names, rejects an empty name and two names equal but for case, and otherwise answers
  with a combo whose \<open>components\<close> echo the two names and whose \<open>mode\<close> is the requested
  one, or \<open>competitive\<close> when that is not one of the three modes. The other properties of
  the combo come from the text and image providers; here they are the argument \<open>fusion\<close>.
\<close>

definition backend_generate :: "combo \<Rightarrow> gen_request \<Rightarrow> error + generate_response" where
  "backend_generate fusion req =
     (let entityA = trim (req_product1 req); entityB = trim (req_product2 req) in
      if entityA = [] \<or> entityB = [] \<or> toLowerCase entityA = toLowerCase entityB then
        Inl (AxiosError ''Request failed with status code 400'' (Val ''ValidationError''))
      else
        Inr \<lparr>resp_combo = Val (fusion
          \<lparr>components := Val \<lparr>comp_a = Val entityA, comp_b = Val entityB\<rparr>,
           combo_mode := Val (if req_mode req \<in> set [''competitive'', ''collaborative'', ''fusion'']
                              then req_mode req else ''competitive'')\<rparr>)\<rparr>)"

section \<open>Reachable tables\<close>

text \<open>
  The table is empty after the migration. The client changes it through
  \<open>apiService.generateCombo\<close> and \<open>apiService.voteForCombo\<close>, whatever the backend answers
  and whatever the store's environment is; its other functions only read.
\<close>

inductive reachable :: "table \<Rightarrow> bool" where
  migrated: "reachable []"
| generated:
    "reachable tbl \<Longrightarrow> apiService_generateCombo be srv p1 p2 m tbl = (calls, tbl', res)
     \<Longrightarrow> reachable tbl'"
| voted:
    "reachable tbl \<Longrightarrow> apiService_voteForCombo be srv i tbl = (calls, tbl', res)
     \<Longrightarrow> reachable tbl'"

section \<open>Concrete inputs\<close>

definition example_row :: "uuid \<Rightarrow> int option \<Rightarrow> brand_combos" where
  "example_row i v =
     \<lparr>row_id = i, name = ''NikeDidas'', slogan = None, description = None,
      product1 = ''Nike'', product2 = ''Adidas'', mode = Some ''competitive'', votes = v,
      host_reaction = None, image_url = None, compatibility_score = Some 0,
      created_at = Some 1000, updated_at = Some 1000\<rparr>"

definition store_up :: server where
  "store_up = \<lparr>available = True, now = 2000, gen_random_uuid = 42\<rparr>"

definition store_down :: server where
  "store_down = \<lparr>available = False, now = 2000, gen_random_uuid = 42\<rparr>"

definition example_combo :: "uuid js \<Rightarrow> combo" where
  "example_combo i =
     \<lparr>combo_id = i, combo_name = Val ''NikeDidas'', combo_slogan = Val ''Just merge it'',
      flavor_description = Undefined,
      components = Val \<lparr>comp_a = Val ''Nike'', comp_b = Val ''Adidas''\<rparr>,
      combo_mode = Val ''competitive'', combo_votes = Undefined,
      combo_host_reaction = Undefined\<rparr>"

definition example_backend :: "uuid js \<Rightarrow> backend" where
  "example_backend i =
     \<lparr>post_generate = (\<lambda>req. Inr \<lparr>resp_combo = Val (example_combo i)\<rparr>),
      post_vote = (\<lambda>c. Inl (AxiosError ''Network Error'' Undefined)),
      get_leaderboard = (\<lambda>n. Inr \<lparr>combos = Val [example_row 1 (Some 3)]\<rparr>),
      get_stats = Inl (AxiosError ''Network Error'' Undefined)\<rparr>"

definition example_state :: "string \<Rightarrow> string \<Rightarrow> combo js \<Rightarrow> mixer_state" where
  "example_state p1 p2 r =
     \<lparr>st_product1 = p1, st_product2 = p2, st_mode = ''fusion'', st_loading = False,
      st_result = r, st_error = []\<rparr>"

definition example_created :: brand_combos where
  "example_created =
     \<lparr>row_id = 42, name = ''NikeDidas'', slogan = Some ''Just merge it'', description = None,
      product1 = ''Nike'', product2 = ''Adidas'', mode = Some ''competitive'', votes = Some 0,
      host_reaction = None, image_url = None, compatibility_score = Some 0,
      created_at = Some 2000, updated_at = Some 2000\<rparr>"

section \<open>How a vote changes a row\<close>

text \<open>A row after a statement, against the row before it: \<open>votes\<close> is the same or one higher.\<close>

definition grown :: "brand_combos \<Rightarrow> brand_combos \<Rightarrow> bool" where
  "grown r r' = (votes r' = votes r \<or> (\<exists>v. votes r = Some v \<and> votes r' = Some (v + 1)))"

section \<open>Strings\<close>

lemma lower_char_cases: "lower_char c = c \<or> (lower_char c \<in> set ''abcdefghijklmnopqrstuvwxyz'' \<and> c \<in> set ''ABCDEFGHIJKLMNOPQRSTUVWXYZ'')"
proof (cases "map_of (zip ''ABCDEFGHIJKLMNOPQRSTUVWXYZ'' ''abcdefghijklmnopqrstuvwxyz'') c")
  case None
  then show ?thesis by (simp only: lower_char_def option.case simp_thms)
next
  case (Some d)
  then have "(c, d) \<in> set (zip ''ABCDEFGHIJKLMNOPQRSTUVWXYZ'' ''abcdefghijklmnopqrstuvwxyz'')"
    by (rule map_of_SomeD)
  then have "c \<in> set ''ABCDEFGHIJKLMNOPQRSTUVWXYZ''" "d \<in> set ''abcdefghijklmnopqrstuvwxyz''"
    by (rule set_zip_leftD, rule set_zip_rightD)
  moreover from Some have "lower_char c = d" by (simp only: lower_char_def option.case)
  ultimately show ?thesis by (simp only: simp_thms)
qed

lemma is_space_lower_char: "is_space (lower_char c) = is_space c"
proof -
  have up: "\<not> is_space x" if "x \<in> set ''ABCDEFGHIJKLMNOPQRSTUVWXYZ''" for x
    using that unfolding is_space_def by auto
  have lo: "\<not> is_space x" if "x \<in> set ''abcdefghijklmnopqrstuvwxyz''" for x
    using that unfolding is_space_def by auto
  from lower_char_cases[of c] show ?thesis using up lo by metis
qed


lemma toLowerCase_trim: "toLowerCase (trim s) = trim (toLowerCase s)"
proof -
  have comp: "is_space \<circ> lower_char = is_space"
    by (rule ext) (simp add: is_space_lower_char)
  show ?thesis
    by (simp add: toLowerCase_def trim_def rev_map dropWhile_map comp)
qed

lemma trim_no_space_ends:
  "trim s = [] \<or> (\<not> is_space (hd (trim s)) \<and> \<not> is_space (last (trim s)))"
proof (cases "trim s = []")
  case True
  then show ?thesis by simp
next
  case False
  define t where "t = dropWhile is_space s"
  define u where "u = dropWhile is_space (rev t)"
  have ts: "trim s = rev u" by (simp add: trim_def t_def u_def)
  with False have u: "u \<noteq> []" by simp
  then have hu: "\<not> is_space (hd u)" unfolding u_def by (rule hd_dropWhile)
  have "rev t = takeWhile is_space (rev t) @ u" by (simp add: u_def)
  then have t_eq: "t = rev u @ rev (takeWhile is_space (rev t))"
    by (metis rev_append rev_rev_ident)
  from u t_eq have "t \<noteq> []" by auto
  then have "\<not> is_space (hd t)" unfolding t_def by (rule hd_dropWhile)
  moreover from u t_eq have "hd t = hd (rev u)" by (metis hd_append2 rev_is_Nil_conv)
  ultimately have "\<not> is_space (hd (trim s))" using ts by simp
  moreover from u hu ts have "\<not> is_space (last (trim s))" by (simp add: last_rev)
  ultimately show ?thesis by simp
qed

lemma trim_trim: "trim (trim s) = trim s"
proof (cases "trim s = []")
  case True
  have "trim [] = []" by (simp add: trim_def)
  with True show ?thesis by simp
next
  case False
  with trim_no_space_ends[of s]
  have h: "\<not> is_space (hd (trim s))" and l: "\<not> is_space (last (trim s))" by auto
  from False h have d1: "dropWhile is_space (trim s) = trim s"
    by (cases "trim s") auto
  from False l have d2: "dropWhile is_space (rev (trim s)) = rev (trim s)"
    by (cases "rev (trim s)") (auto simp: hd_rev)
  show ?thesis
    unfolding trim_def[of "trim s"] d1 d2 by simp
qed

section \<open>The store's statements\<close>

lemma increment_votes_length: "increment_votes ts cid tbl = Inr tbl' \<Longrightarrow> length tbl' = length tbl"
  by (induction tbl arbitrary: tbl') (auto split: if_splits sum.splits)

lemma increment_votes_no_match:
  "cid \<notin> set (map row_id tbl) \<Longrightarrow> increment_votes ts cid tbl = Inr tbl"
  by (induction tbl) auto

lemma increment_votes_distinct:
  assumes "distinct (map row_id tbl)" "i < length tbl" "votes (tbl ! i) = Some v"
    "int4_min \<le> v" "v < int4_max"
  shows "increment_votes ts (row_id (tbl ! i)) tbl
         = Inr (tbl[i := (tbl ! i)\<lparr>votes := Some (v + 1), updated_at := Some ts\<rparr>])"
  using assms
proof (induction tbl arbitrary: i)
  case Nil
  then show ?case by simp
next
  case (Cons r rs)
  show ?case
  proof (cases i)
    case 0
    with Cons.prems have "row_id r \<notin> set (map row_id rs)" by simp
    then have "increment_votes ts (row_id r) rs = Inr rs" by (rule increment_votes_no_match)
    with 0 Cons.prems show ?thesis by (simp add: int4_plus_def)
  next
    case (Suc j)
    with Cons.prems have j: "j < length rs" "votes (rs ! j) = Some v" "distinct (map row_id rs)"
      by simp_all
    from Suc Cons.prems j have ne: "row_id r \<noteq> row_id (rs ! j)" by auto
    from Cons.IH[OF j(3) j(1) j(2) Cons.prems(4) Cons.prems(5)] Suc ne show ?thesis by simp
  qed
qed

lemma votes_ge_total: "votes_ge x y \<or> votes_ge y x"
  by (auto simp: votes_ge_def split: option.splits)

lemma votes_ge_trans: "votes_ge x y \<Longrightarrow> votes_ge y z \<Longrightarrow> votes_ge x z"
  by (auto simp: votes_ge_def split: option.splits)

lemma mset_insert_desc: "mset (insert_desc r rs) = add_mset r (mset rs)"
  by (induction rs) auto

lemma mset_order_by_votes_desc: "mset (order_by_votes_desc tbl) = mset tbl"
  by (induction tbl) (auto simp: order_by_votes_desc_def mset_insert_desc)

lemma set_insert_desc: "set (insert_desc r rs) = insert r (set rs)"
  by (induction rs) auto

lemma sorted_insert_desc:
  "sorted_wrt (\<lambda>r s. votes_ge (votes r) (votes s)) rs
   \<Longrightarrow> sorted_wrt (\<lambda>r s. votes_ge (votes r) (votes s)) (insert_desc r rs)"
proof (induction rs)
  case Nil
  then show ?case by simp
next
  case (Cons s ss)
  show ?case
  proof (cases "votes_ge (votes r) (votes s)")
    case True
    with Cons.prems show ?thesis by (auto intro: votes_ge_trans)
  next
    case False
    then have "votes_ge (votes s) (votes r)" using votes_ge_total by blast
    with False Cons show ?thesis by (auto simp: set_insert_desc)
  qed
qed

lemma sorted_order_by_votes_desc:
  "sorted_wrt (\<lambda>r s. votes_ge (votes r) (votes s)) (order_by_votes_desc tbl)"
  by (induction tbl) (auto simp: order_by_votes_desc_def sorted_insert_desc)

lemma length_order_by_votes_desc: "length (order_by_votes_desc tbl) = length tbl"
  using mset_order_by_votes_desc[of tbl] by (metis size_mset)

lemma sorted_wrt_take_drop:
  "sorted_wrt P xs \<Longrightarrow> x \<in> set (take n xs) \<Longrightarrow> y \<in> set (drop n xs) \<Longrightarrow> P x y"
  by (metis append_take_drop_id sorted_wrt_append)

lemma foldl_js_plus: "foldl js_plus a vs = a + sum_list (map (\<lambda>v. case v of None \<Rightarrow> 0 | Some n \<Rightarrow> n) vs)"
  by (induction vs arbitrary: a) (auto simp: js_plus_def split: option.splits)

section \<open>Voting\<close>

text \<open>
  C2, as amended. With the store reachable and ids unique (the primary key), a vote for
  the id of an existing row whose \<open>votes\<close> is an integer of the column's type below the
  largest one is a single remote call of \<open>increment_votes\<close> with no read by the client.
  It succeeds; the row's \<open>votes\<close> becomes the previous value plus 1 and its \<open>updated_at\<close>
  becomes \<open>now()\<close>; the row's other fields and every other row stay as they were.
\<close>

theorem vote_increments_exactly_one_row:
  assumes "available srv" and "distinct (map row_id tbl)" and "k < length tbl"
    and "votes (tbl ! k) = Some v" and "int4_min \<le> v" and "v < int4_max"
  shows "\<exists>tbl'.
           supabaseOperations_voteForCombo srv (row_id (tbl ! k)) tbl
             = ([Rpc ''increment_votes'' (row_id (tbl ! k))], tbl', Inr ())
         \<and> apiService_voteForCombo be srv (row_id (tbl ! k)) tbl
             = ([Rpc ''increment_votes'' (row_id (tbl ! k))], tbl', Inr \<lparr>status = ''voted''\<rparr>)
         \<and> length tbl' = length tbl
         \<and> tbl' ! k = (tbl ! k)\<lparr>votes := Some (v + 1), updated_at := Some (now srv)\<rparr>
         \<and> (\<forall>j < length tbl. j \<noteq> k \<longrightarrow> tbl' ! j = tbl ! j)"
proof -
  let ?tbl' = "tbl[k := (tbl ! k)\<lparr>votes := Some (v + 1), updated_at := Some (now srv)\<rparr>]"
  have inc: "increment_votes (now srv) (row_id (tbl ! k)) tbl = Inr ?tbl'"
    using assms(2-6) by (rule increment_votes_distinct)
  have "supabaseOperations_voteForCombo srv (row_id (tbl ! k)) tbl
          = ([Rpc ''increment_votes'' (row_id (tbl ! k))], ?tbl', Inr ())"
    using assms(1) inc by (simp add: supabaseOperations_voteForCombo_def)
  moreover from this have "apiService_voteForCombo be srv (row_id (tbl ! k)) tbl
          = ([Rpc ''increment_votes'' (row_id (tbl ! k))], ?tbl', Inr \<lparr>status = ''voted''\<rparr>)"
    by (simp add: apiService_voteForCombo_def)
  moreover have "length ?tbl' = length tbl" by simp
  moreover have "?tbl' ! k = (tbl ! k)\<lparr>votes := Some (v + 1), updated_at := Some (now srv)\<rparr>"
    using assms(3) by simp
  moreover have "\<forall>j < length tbl. j \<noteq> k \<longrightarrow> ?tbl' ! j = tbl ! j" by simp
  ultimately show ?thesis by blast
qed

theorem vote_increments_exactly_one_row_witness:
  "available store_up
   \<and> distinct (map row_id [example_row 1 (Some 5), example_row 2 (Some 7)])
   \<and> votes ([example_row 1 (Some 5), example_row 2 (Some 7)] ! 1) = Some 7
   \<and> int4_min \<le> 7 \<and> 7 < int4_max
   \<and> supabaseOperations_voteForCombo store_up 2 [example_row 1 (Some 5), example_row 2 (Some 7)]
       = ([Rpc ''increment_votes'' 2],
          [example_row 1 (Some 5), (example_row 2 (Some 8))\<lparr>updated_at := Some 2000\<rparr>],
          Inr ())"
proof -
  let ?tbl = "[example_row 1 (Some 5), example_row 2 (Some 7)]"
  have a: "available store_up" by (simp add: store_up_def)
  have d: "distinct (map row_id ?tbl)" by (simp add: example_row_def)
  have k: "(1::nat) < length ?tbl" by simp
  have v: "votes (?tbl ! 1) = Some 7" by (simp add: example_row_def)
  have lo: "int4_min \<le> 7" by (simp add: int4_min_def)
  have hi: "7 < int4_max" by (simp add: int4_max_def)
  from vote_increments_exactly_one_row[OF a d k v lo hi, of "example_backend Undefined"]
  obtain tbl' where
    call: "supabaseOperations_voteForCombo store_up (row_id (?tbl ! 1)) ?tbl
             = ([Rpc ''increment_votes'' (row_id (?tbl ! 1))], tbl', Inr ())"
    and len: "length tbl' = length ?tbl"
    and row: "tbl' ! 1 = (?tbl ! 1)\<lparr>votes := Some (7 + 1), updated_at := Some (now store_up)\<rparr>"
    and others: "\<forall>j < length ?tbl. j \<noteq> 1 \<longrightarrow> tbl' ! j = ?tbl ! j"
    by blast
  from others have r0: "tbl' ! 0 = example_row 1 (Some 5)" by simp
  from row have r1: "tbl' ! 1 = (example_row 2 (Some 8))\<lparr>updated_at := Some 2000\<rparr>"
    by (simp add: example_row_def store_up_def)
  from len have "length tbl' = 2" by simp
  then obtain x y where xy: "tbl' = [x, y]"
    by (metis (no_types) length_0_conv length_Suc_conv numeral_2_eq_2)
  with r0 r1 have "tbl' = [example_row 1 (Some 5), (example_row 2 (Some 8))\<lparr>updated_at := Some 2000\<rparr>]"
    by simp
  with call have "supabaseOperations_voteForCombo store_up 2 ?tbl
       = ([Rpc ''increment_votes'' 2],
          [example_row 1 (Some 5), (example_row 2 (Some 8))\<lparr>updated_at := Some 2000\<rparr>], Inr ())"
    by (simp add: example_row_def)
  with a d v lo hi show ?thesis by blast
qed

text \<open>
  Without the bound the property fails: on a row at the largest integer the statement is
  rejected and the table keeps its votes, and on a row whose \<open>votes\<close> is NULL the vote
  succeeds and \<open>votes\<close> stays NULL.
\<close>

theorem vote_at_int4_max_or_null_counterexample:
  "supabaseOperations_voteForCombo store_up 1 [example_row 1 (Some 2147483647)]
     = ([Rpc ''increment_votes'' 1], [example_row 1 (Some 2147483647)], Inl IntegerOutOfRange)
   \<and> supabaseOperations_voteForCombo store_up 1 [example_row 1 None]
     = ([Rpc ''increment_votes'' 1], [(example_row 1 None)\<lparr>updated_at := Some 2000\<rparr>], Inr ())"
  by (simp add: supabaseOperations_voteForCombo_def store_up_def example_row_def
      int4_plus_def int4_max_def int4_min_def)

text \<open>
  C4, as amended. A vote for an id that no row has is not an error: with the store
  reachable the call succeeds, the table is unchanged and the service reports
  \<open>voted\<close>.
\<close>

theorem vote_for_unknown_id_succeeds_silently:
  assumes "available srv" and "comboId \<notin> set (map row_id tbl)"
  shows "supabaseOperations_voteForCombo srv comboId tbl
           = ([Rpc ''increment_votes'' comboId], tbl, Inr ())
         \<and> apiService_voteForCombo be srv comboId tbl
           = ([Rpc ''increment_votes'' comboId], tbl, Inr \<lparr>status = ''voted''\<rparr>)"
proof -
  from assms(2) have "increment_votes (now srv) comboId tbl = Inr tbl"
    by (rule increment_votes_no_match)
  with assms(1) have "supabaseOperations_voteForCombo srv comboId tbl
           = ([Rpc ''increment_votes'' comboId], tbl, Inr ())"
    by (simp add: supabaseOperations_voteForCombo_def)
  then show ?thesis by (simp add: apiService_voteForCombo_def)
qed

theorem vote_for_unknown_id_succeeds_silently_witness:
  "available store_up \<and> (9::uuid) \<notin> set (map row_id [example_row 1 (Some 5)])
   \<and> apiService_voteForCombo (example_backend Undefined) store_up 9 [example_row 1 (Some 5)]
       = ([Rpc ''increment_votes'' 9], [example_row 1 (Some 5)], Inr \<lparr>status = ''voted''\<rparr>)"
proof -
  have a: "available store_up" by (simp add: store_up_def)
  have n: "(9::uuid) \<notin> set (map row_id [example_row 1 (Some 5)])"
    by (simp add: example_row_def)
  from vote_for_unknown_id_succeeds_silently[OF a n, of "example_backend Undefined"] a n
  show ?thesis by blast
qed

text \<open>No \<open>NotFoundError\<close>: the vote for id 2 on a table that only has id 1 returns normally.\<close>

theorem vote_for_unknown_id_counterexample:
  "supabaseOperations_voteForCombo store_up 2 [example_row 1 (Some 3)]
     = ([Rpc ''increment_votes'' 2], [example_row 1 (Some 3)], Inr ())
   \<and> apiService_voteForCombo (example_backend Undefined) store_up 2 [example_row 1 (Some 3)]
     = ([Rpc ''increment_votes'' 2], [example_row 1 (Some 3)], Inr \<lparr>status = ''voted''\<rparr>)"
  by (simp add: apiService_voteForCombo_def supabaseOperations_voteForCombo_def store_up_def
      example_row_def)

section \<open>The leaderboard query\<close>

lemma votes_5_1_9_3:
  assumes "map votes tbl = [Some 5, Some 1, Some 9, Some 3]"
  shows "map votes (take 3 (order_by_votes_desc tbl)) = [Some 9, Some 5, Some 3]"
proof -
  from assms obtain a b c d where "tbl = [a, b, c, d]"
    and "votes a = Some 5" and "votes b = Some 1" and "votes c = Some 9" and "votes d = Some 3"
    by (auto simp: map_eq_Cons_conv)
  then show ?thesis by (simp add: order_by_votes_desc_def votes_ge_def)
qed

lemma rest_below_top:
  assumes "s \<in># mset tbl - mset (take n (order_by_votes_desc tbl))"
    and "r \<in> set (take n (order_by_votes_desc tbl))"
  shows "votes_ge (votes r) (votes s)"
proof -
  let ?xs = "order_by_votes_desc tbl"
  have "mset tbl = mset (take n ?xs) + mset (drop n ?xs)"
    by (metis append_take_drop_id mset_append mset_order_by_votes_desc)
  with assms(1) have "s \<in> set (drop n ?xs)" by simp
  with sorted_order_by_votes_desc[of tbl] assms(2) show ?thesis
    by (rule sorted_wrt_take_drop[where P = "\<lambda>r s. votes_ge (votes r) (votes s)"])
qed

text \<open>
  C5. With the store reachable, \<open>getCombos(limit)\<close> is one query and returns
  \<open>min limit (number of rows)\<close> rows of the table, so at most \<open>limit\<close>, in descending order
  of \<open>votes\<close> (\<open>votes_ge\<close>: each row's votes is at least the next one's, NULL first as in
  PostgreSQL), and every row left out has at most the votes of every row returned. On a
  table whose votes are 5, 1, 9, 3 a limit of 3 gives votes 9, 5, 3. Without an argument
  \<open>getCombos\<close> and \<open>getLeaderboard\<close> use the limit 10, and \<open>getLeaderboard\<close> returns the
  rows of \<open>getCombos\<close>.
\<close>

theorem getCombos_returns_top_rows_by_votes:
  assumes "available srv"
  shows "\<exists>rows.
           supabaseOperations_getCombos srv (Some limit) tbl = ([SelectOrderLimit limit], Inr rows)
         \<and> apiService_getLeaderboard be srv (Some limit) tbl
             = ([SelectOrderLimit limit], Inr \<lparr>combos = Val rows\<rparr>)
         \<and> length rows = min limit (length tbl) \<and> length rows \<le> limit
         \<and> sorted_wrt (\<lambda>r s. votes_ge (votes r) (votes s)) rows
         \<and> mset rows \<subseteq># mset tbl
         \<and> (\<forall>r \<in> set rows. \<forall>s \<in># mset tbl - mset rows. votes_ge (votes r) (votes s))
         \<and> (map votes tbl = [Some 5, Some 1, Some 9, Some 3] \<and> limit = 3
              \<longrightarrow> map votes rows = [Some 9, Some 5, Some 3])
         \<and> supabaseOperations_getCombos srv None tbl
             = supabaseOperations_getCombos srv (Some 10) tbl
         \<and> apiService_getLeaderboard be srv None tbl
             = apiService_getLeaderboard be srv (Some 10) tbl"
proof -
  let ?rows = "take limit (order_by_votes_desc tbl)"
  have q: "supabaseOperations_getCombos srv (Some limit) tbl = ([SelectOrderLimit limit], Inr ?rows)"
    using assms by (simp add: supabaseOperations_getCombos_def)
  then have l: "apiService_getLeaderboard be srv (Some limit) tbl
             = ([SelectOrderLimit limit], Inr \<lparr>combos = Val ?rows\<rparr>)"
    by (simp add: apiService_getLeaderboard_def)
  have len: "length ?rows = min limit (length tbl)"
    by (simp add: length_order_by_votes_desc min.commute)
  then have le: "length ?rows \<le> limit" by simp
  have sorted: "sorted_wrt (\<lambda>r s. votes_ge (votes r) (votes s)) ?rows"
    using sorted_order_by_votes_desc[of tbl] by (rule sorted_wrt_take)
  have "mset ?rows \<subseteq># mset (order_by_votes_desc tbl)"
    by (metis append_take_drop_id mset_append mset_subset_eq_add_left)
  then have sub: "mset ?rows \<subseteq># mset tbl" by (simp add: mset_order_by_votes_desc)
  have top: "\<forall>r \<in> set ?rows. \<forall>s \<in># mset tbl - mset ?rows. votes_ge (votes r) (votes s)"
    using rest_below_top by blast
  have ex: "map votes tbl = [Some 5, Some 1, Some 9, Some 3] \<and> limit = 3
              \<longrightarrow> map votes ?rows = [Some 9, Some 5, Some 3]"
    using votes_5_1_9_3[of tbl] by simp
  have d1: "supabaseOperations_getCombos srv None tbl
             = supabaseOperations_getCombos srv (Some 10) tbl"
    by (simp add: supabaseOperations_getCombos_def)
  have d2: "apiService_getLeaderboard be srv None tbl
             = apiService_getLeaderboard be srv (Some 10) tbl"
    by (simp add: apiService_getLeaderboard_def)
  show ?thesis
    by (intro exI[of _ "?rows"] conjI q l len le sorted sub top ex d1 d2)
qed

theorem getCombos_returns_top_rows_by_votes_witness:
  "available store_up
   \<and> (\<exists>rows. supabaseOperations_getCombos store_up (Some 3)
          [example_row 1 (Some 5), example_row 2 (Some 1), example_row 3 (Some 9),
           example_row 4 (Some 3)] = ([SelectOrderLimit 3], Inr rows)
        \<and> length rows = 3
        \<and> map votes rows = [Some 9, Some 5, Some 3])"
proof -
  let ?tbl = "[example_row 1 (Some 5), example_row 2 (Some 1), example_row 3 (Some 9),
           example_row 4 (Some 3)]"
  have a: "available store_up" by (simp add: store_up_def)
  have v: "map votes ?tbl = [Some 5, Some 1, Some 9, Some 3]" by (simp add: example_row_def)
  from getCombos_returns_top_rows_by_votes[OF a, of 3 ?tbl "example_backend Undefined"]
  obtain rows where
    "supabaseOperations_getCombos store_up (Some 3) ?tbl = ([SelectOrderLimit 3], Inr rows)"
    and "length rows = min 3 (length ?tbl)"
    and "map votes ?tbl = [Some 5, Some 1, Some 9, Some 3] \<and> (3::nat) = 3
           \<longrightarrow> map votes rows = [Some 9, Some 5, Some 3]"
    by (elim exE conjE)
  with v a show ?thesis by simp
qed

section \<open>Statistics\<close>

text \<open>
  C6. With the store reachable, \<open>getStats\<close> returns \<open>totalCombos\<close> equal to the number of
  rows and \<open>totalVotes\<close> equal to the sum of the \<open>votes\<close> column (a NULL adds nothing), and
  \<open>apiService.getStats\<close> passes that on; on the empty table both are 0.
\<close>

theorem getStats_counts_rows_and_sums_votes:
  assumes "available srv"
  shows "supabaseOperations_getStats srv tbl
           = ([SelectVotes],
              Inr \<lparr>totalCombos = int (length tbl),
                   totalVotes = (\<Sum>r\<leftarrow>tbl. case votes r of None \<Rightarrow> 0 | Some n \<Rightarrow> n)\<rparr>)
         \<and> apiService_getStats srv tbl = supabaseOperations_getStats srv tbl
         \<and> supabaseOperations_getStats srv []
           = ([SelectVotes], Inr \<lparr>totalCombos = 0, totalVotes = 0\<rparr>)"
  using assms
  by (simp add: supabaseOperations_getStats_def apiService_getStats_def foldl_js_plus comp_def)

theorem getStats_counts_rows_and_sums_votes_witness:
  "available store_up
   \<and> supabaseOperations_getStats store_up
        [example_row 1 (Some 5), example_row 2 None, example_row 3 (Some 9)]
      = ([SelectVotes], Inr \<lparr>totalCombos = 3, totalVotes = 14\<rparr>)"
proof -
  have a: "available store_up" by (simp add: store_up_def)
  from getStats_counts_rows_and_sums_votes[OF a,
      of "[example_row 1 (Some 5), example_row 2 None, example_row 3 (Some 9)]"] a
  show ?thesis by (simp add: example_row_def)
qed

text \<open>
  C10. \<open>apiService.getStats\<close> never throws: whatever the store's query ends in, it
  returns a \<open>stats\<close> object; when the query fails that object is
  \<open>{totalCombos: 0, totalVotes: 0}\<close>, and when it succeeds it is the query's result.
\<close>

theorem apiService_getStats_never_throws:
  "\<exists>calls s.
     apiService_getStats srv tbl = (calls, Inr s)
     \<and> (\<forall>e. snd (supabaseOperations_getStats srv tbl) = Inl e
           \<longrightarrow> s = \<lparr>totalCombos = 0, totalVotes = 0\<rparr>)
     \<and> (\<forall>s'. snd (supabaseOperations_getStats srv tbl) = Inr s' \<longrightarrow> s = s')"
  by (cases "supabaseOperations_getStats srv tbl" rule: prod.exhaust)
     (auto simp: apiService_getStats_def split: sum.splits)

theorem apiService_getStats_never_throws_witness:
  "snd (supabaseOperations_getStats store_down [example_row 1 (Some 5)]) = Inl StoreUnavailable
   \<and> (\<exists>calls. apiService_getStats store_down [example_row 1 (Some 5)]
         = (calls, Inr \<lparr>totalCombos = 0, totalVotes = 0\<rparr>))"
proof -
  have f: "snd (supabaseOperations_getStats store_down [example_row 1 (Some 5)])
             = Inl StoreUnavailable"
    by (simp add: supabaseOperations_getStats_def store_down_def)
  from apiService_getStats_never_throws[of store_down "[example_row 1 (Some 5)]"]
  obtain calls s where
    "apiService_getStats store_down [example_row 1 (Some 5)] = (calls, Inr s)"
    and "\<forall>e. snd (supabaseOperations_getStats store_down [example_row 1 (Some 5)]) = Inl e
           \<longrightarrow> s = \<lparr>totalCombos = 0, totalVotes = 0\<rparr>"
    by blast
  with f show ?thesis by blast
qed

section \<open>Validation in \<open>handleGenerate\<close>\<close>

lemma toLowerCase_trim_cong:
  "toLowerCase a = toLowerCase b \<Longrightarrow> toLowerCase (trim a) = toLowerCase (trim b)"
  by (simp add: toLowerCase_trim)

text \<open>
  C3. When a name is empty after trimming, or the two names are equal but for case, both
  versions of \<open>handleGenerate\<close> stop at validation: they make no external call at all, leave
  the table and the rest of the state as they were, and set the error message
  (\<open>Please enter both brand names\<close> for an empty name, otherwise
  \<open>Please select two different brands\<close>).
\<close>

theorem handleGenerate_rejects_before_any_call:
  assumes "trim (st_product1 st) = [] \<or> trim (st_product2 st) = []
           \<or> toLowerCase (st_product1 st) = toLowerCase (st_product2 st)"
  shows "\<exists>msg. msg \<noteq> []
           \<and> msg = (if trim (st_product1 st) = [] \<or> trim (st_product2 st) = []
                    then ''Please enter both brand names''
                    else ''Please select two different brands'')
           \<and> handleGenerate be srv st tbl = ([], tbl, st\<lparr>st_error := msg\<rparr>)
           \<and> handleGenerate_frontend be srv st tbl = ([], tbl, st\<lparr>st_error := msg\<rparr>)"
proof (cases "trim (st_product1 st) = [] \<or> trim (st_product2 st) = []")
  case True
  then show ?thesis by (simp add: handleGenerate_def handleGenerate_frontend_def)
next
  case False
  with assms have eq: "toLowerCase (st_product1 st) = toLowerCase (st_product2 st)" by blast
  then have "toLowerCase (trim (st_product1 st)) = toLowerCase (trim (st_product2 st))"
    by (rule toLowerCase_trim_cong)
  with False eq show ?thesis by (simp add: handleGenerate_def handleGenerate_frontend_def)
qed

theorem handleGenerate_rejects_before_any_call_witness:
  "toLowerCase ''Nike'' = toLowerCase ''NIKE''
   \<and> handleGenerate (example_backend Undefined) store_up (example_state ''Nike'' ''NIKE'' Null) []
       = ([], [], (example_state ''Nike'' ''NIKE'' Null)\<lparr>st_error := ''Please select two different brands''\<rparr>)
   \<and> handleGenerate_frontend (example_backend Undefined) store_up (example_state ''Nike'' ''NIKE'' Null) []
       = ([], [], (example_state ''Nike'' ''NIKE'' Null)\<lparr>st_error := ''Please select two different brands''\<rparr>)"
proof -
  let ?st = "example_state ''Nike'' ''NIKE'' Null"
  have eq: "toLowerCase ''Nike'' = toLowerCase ''NIKE''"
    by (simp add: toLowerCase_def lower_char_def)
  then have h: "trim (st_product1 ?st) = [] \<or> trim (st_product2 ?st) = []
           \<or> toLowerCase (st_product1 ?st) = toLowerCase (st_product2 ?st)"
    by (simp add: example_state_def)
  have ne: "\<not> (trim (st_product1 ?st) = [] \<or> trim (st_product2 ?st) = [])"
    by (simp add: example_state_def trim_def is_space_def)
  from handleGenerate_rejects_before_any_call[OF h, of "example_backend Undefined" store_up "[]"] ne eq
  show ?thesis by auto
qed

section \<open>\<open>generateCombo\<close> and the save to the store\<close>

lemma createCombo_failure_keeps_table:
  "supabaseOperations_createCombo srv c tbl = (calls, tbl', Inl e) \<Longrightarrow> tbl' = tbl"
  by (auto simp: supabaseOperations_createCombo_def split: if_splits sum.splits)

lemma save_failure_keeps_table:
  "save_to_supabase srv response tbl = (calls, tbl', Inl e) \<Longrightarrow> tbl' = tbl"
  by (auto simp: save_to_supabase_def split: js.splits dest: createCombo_failure_keeps_table)

lemma generateCombo_returns_response:
  assumes "post_generate be
             \<lparr>req_product1 = trim p1, req_product2 = trim p2,
              req_mode = (case m of None \<Rightarrow> ''competitive'' | Some x \<Rightarrow> x)\<rparr> = Inr response"
  shows "\<exists>calls tbl'. apiService_generateCombo be srv p1 p2 m tbl
           = (PostGenerate \<lparr>req_product1 = trim p1, req_product2 = trim p2,
                req_mode = (case m of None \<Rightarrow> ''competitive'' | Some x \<Rightarrow> x)\<rparr> # calls,
              tbl', Inr response)"
  using assms
  by (cases "save_to_supabase srv response tbl" rule: prod_cases3)
     (simp add: apiService_generateCombo_def)

lemma handleVote_without_id:
  assumes "\<not> (\<exists>c i. st_result st = Val c \<and> combo_id c = Val i)"
  shows "handleVote be srv st tbl = ([], tbl, st)"
  using assms by (auto simp: handleVote_def split: js.splits)

text \<open>
  C1, as amended. When the backend has answered and the save to the store fails,
  \<open>generateCombo\<close> still returns the backend's response, unchanged, and throws nothing;
  the table is as it was. The client neither adds nor removes an id: the result has one
  exactly when the backend's response has one. A vote on a result without an id (or
  without a result) makes no external call and changes nothing.
\<close>

theorem generateCombo_survives_failed_save:
  assumes "post_generate be
             \<lparr>req_product1 = trim p1, req_product2 = trim p2,
              req_mode = (case m of None \<Rightarrow> ''competitive'' | Some x \<Rightarrow> x)\<rparr> = Inr response"
    and "save_to_supabase srv response tbl = (calls, tbl', Inl e)"
  shows "apiService_generateCombo be srv p1 p2 m tbl
           = (PostGenerate \<lparr>req_product1 = trim p1, req_product2 = trim p2,
                req_mode = (case m of None \<Rightarrow> ''competitive'' | Some x \<Rightarrow> x)\<rparr> # calls,
              tbl, Inr response)
         \<and> (\<forall>st be' srv' t.
               st_result st = resp_combo response
               \<and> \<not> (\<exists>c i. resp_combo response = Val c \<and> combo_id c = Val i)
               \<longrightarrow> handleVote be' srv' st t = ([], t, st))"
proof -
  from assms(2) have "tbl' = tbl" by (rule save_failure_keeps_table)
  with assms have "apiService_generateCombo be srv p1 p2 m tbl
           = (PostGenerate \<lparr>req_product1 = trim p1, req_product2 = trim p2,
                req_mode = (case m of None \<Rightarrow> ''competitive'' | Some x \<Rightarrow> x)\<rparr> # calls,
              tbl, Inr response)"
    by (simp add: apiService_generateCombo_def)
  moreover have "\<forall>st be' srv' t.
               st_result st = resp_combo response
               \<and> \<not> (\<exists>c i. resp_combo response = Val c \<and> combo_id c = Val i)
               \<longrightarrow> handleVote be' srv' st t = ([], t, st)"
    using handleVote_without_id by simp
  ultimately show ?thesis by (rule conjI)
qed

theorem generateCombo_survives_failed_save_witness:
  "post_generate (example_backend Undefined)
     \<lparr>req_product1 = trim '' Nike'', req_product2 = trim ''Adidas '', req_mode = ''competitive''\<rparr>
     = Inr \<lparr>resp_combo = Val (example_combo Undefined)\<rparr>
   \<and> snd (snd (save_to_supabase store_down \<lparr>resp_combo = Val (example_combo Undefined)\<rparr> []))
       = Inl StoreUnavailable
   \<and> snd (apiService_generateCombo (example_backend Undefined) store_down '' Nike'' ''Adidas '' None [])
       = ([], Inr \<lparr>resp_combo = Val (example_combo Undefined)\<rparr>)
   \<and> handleVote (example_backend Undefined) store_up
        (example_state ''Nike'' ''Adidas'' (Val (example_combo Undefined))) []
       = ([], [], example_state ''Nike'' ''Adidas'' (Val (example_combo Undefined)))"
proof -
  let ?response = "\<lparr>resp_combo = Val (example_combo Undefined)\<rparr>"
  let ?st = "example_state ''Nike'' ''Adidas'' (Val (example_combo Undefined))"
  have p: "post_generate (example_backend Undefined)
     \<lparr>req_product1 = trim '' Nike'', req_product2 = trim ''Adidas '',
      req_mode = (case None of None \<Rightarrow> ''competitive'' | Some x \<Rightarrow> x)\<rparr> = Inr ?response"
    by (simp add: example_backend_def)
  obtain calls tbl' res where s: "save_to_supabase store_down ?response [] = (calls, tbl', res)"
    by (rule prod_cases3)
  then have r: "res = Inl StoreUnavailable"
    by (simp add: save_to_supabase_def example_combo_def supabaseOperations_createCombo_def
        store_down_def)
  have n: "st_result ?st = resp_combo ?response
           \<and> \<not> (\<exists>c i. resp_combo ?response = Val c \<and> combo_id c = Val i)"
    by (simp add: example_state_def example_combo_def)
  from generateCombo_survives_failed_save[OF p s[unfolded r]] n p s r
  show ?thesis by simp
qed

text \<open>
  The result can carry an id although the save failed: the backend answers with a combo
  whose id is 7, the store is down, and the combo returned still has the id 7.
\<close>

theorem generateCombo_keeps_backend_id_counterexample:
  "snd (snd (save_to_supabase store_down \<lparr>resp_combo = Val (example_combo (Val 7))\<rparr> []))
     = Inl StoreUnavailable
   \<and> snd (snd (apiService_generateCombo (example_backend (Val 7)) store_down ''Nike'' ''Adidas''
                 None []))
     = Inr \<lparr>resp_combo = Val (example_combo (Val 7))\<rparr>
   \<and> combo_id (example_combo (Val 7)) = Val 7"
  by (simp add: apiService_generateCombo_def save_to_supabase_def example_backend_def
      example_combo_def supabaseOperations_createCombo_def store_down_def)

text \<open>
  C7. Against the backend as the specification describes it: for names that are not
  empty after trimming and differ in more than case, and one of the three modes,
  \<open>generateCombo\<close> posts the trimmed names and the mode and returns a combo whose
  \<open>components\<close> are exactly the two trimmed names and whose \<open>mode\<close> is the one supplied;
  with the \<open>mode\<close> argument left out, it posts and returns \<open>competitive\<close>.
\<close>

theorem generateCombo_echoes_names_and_mode:
  assumes "trim a \<noteq> []" and "trim b \<noteq> []"
    and "toLowerCase (trim a) \<noteq> toLowerCase (trim b)"
    and "m \<in> set [''competitive'', ''collaborative'', ''fusion'']"
    and "post_generate be = backend_generate fusion"
  shows "(\<exists>calls tbl' c.
            apiService_generateCombo be srv a b (Some m) tbl
              = (PostGenerate \<lparr>req_product1 = trim a, req_product2 = trim b, req_mode = m\<rparr> # calls,
                 tbl', Inr \<lparr>resp_combo = Val c\<rparr>)
            \<and> components c = Val \<lparr>comp_a = Val (trim a), comp_b = Val (trim b)\<rparr>
            \<and> combo_mode c = Val m)
       \<and> (\<exists>calls tbl' c.
            apiService_generateCombo be srv a b None tbl
              = (PostGenerate \<lparr>req_product1 = trim a, req_product2 = trim b,
                   req_mode = ''competitive''\<rparr> # calls,
                 tbl', Inr \<lparr>resp_combo = Val c\<rparr>)
            \<and> components c = Val \<lparr>comp_a = Val (trim a), comp_b = Val (trim b)\<rparr>
            \<and> combo_mode c = Val ''competitive'')"
proof -
  have answer: "post_generate be \<lparr>req_product1 = trim a, req_product2 = trim b, req_mode = x\<rparr>
      = Inr \<lparr>resp_combo = Val (fusion
          \<lparr>components := Val \<lparr>comp_a = Val (trim a), comp_b = Val (trim b)\<rparr>,
           combo_mode := Val x\<rparr>)\<rparr>"
    if "x \<in> set [''competitive'', ''collaborative'', ''fusion'']" for x
    using that assms(1-3) by (simp add: assms(5) backend_generate_def trim_trim)
  from answer[OF assms(4)]
  have "post_generate be \<lparr>req_product1 = trim a, req_product2 = trim b,
            req_mode = (case Some m of None \<Rightarrow> ''competitive'' | Some x \<Rightarrow> x)\<rparr>
      = Inr \<lparr>resp_combo = Val (fusion
          \<lparr>components := Val \<lparr>comp_a = Val (trim a), comp_b = Val (trim b)\<rparr>,
           combo_mode := Val m\<rparr>)\<rparr>"
    by simp
  from generateCombo_returns_response[OF this, of srv tbl]
  have given: "\<exists>calls tbl' c.
            apiService_generateCombo be srv a b (Some m) tbl
              = (PostGenerate \<lparr>req_product1 = trim a, req_product2 = trim b, req_mode = m\<rparr> # calls,
                 tbl', Inr \<lparr>resp_combo = Val c\<rparr>)
            \<and> components c = Val \<lparr>comp_a = Val (trim a), comp_b = Val (trim b)\<rparr>
            \<and> combo_mode c = Val m"
    by auto
  have "post_generate be \<lparr>req_product1 = trim a, req_product2 = trim b,
            req_mode = (case None of None \<Rightarrow> ''competitive'' | Some x \<Rightarrow> x)\<rparr>
      = Inr \<lparr>resp_combo = Val (fusion
          \<lparr>components := Val \<lparr>comp_a = Val (trim a), comp_b = Val (trim b)\<rparr>,
           combo_mode := Val ''competitive''\<rparr>)\<rparr>"
    using answer[of "''competitive''"] by simp
  from generateCombo_returns_response[OF this, of srv tbl]
  have omitted: "\<exists>calls tbl' c.
            apiService_generateCombo be srv a b None tbl
              = (PostGenerate \<lparr>req_product1 = trim a, req_product2 = trim b,
                   req_mode = ''competitive''\<rparr> # calls,
                 tbl', Inr \<lparr>resp_combo = Val c\<rparr>)
            \<and> components c = Val \<lparr>comp_a = Val (trim a), comp_b = Val (trim b)\<rparr>
            \<and> combo_mode c = Val ''competitive''"
    by auto
  from given omitted show ?thesis by (rule conjI)
qed

theorem generateCombo_echoes_names_and_mode_witness:
  "trim '' Nike'' = ''Nike'' \<and> trim ''Adidas '' = ''Adidas''
   \<and> toLowerCase ''Nike'' \<noteq> toLowerCase ''Adidas''
   \<and> (\<exists>calls tbl' c.
         apiService_generateCombo
           ((example_backend Undefined)\<lparr>post_generate := backend_generate (example_combo Undefined)\<rparr>)
           store_up '' Nike'' ''Adidas '' (Some ''fusion'') []
           = (PostGenerate \<lparr>req_product1 = ''Nike'', req_product2 = ''Adidas'', req_mode = ''fusion''\<rparr> # calls,
              tbl', Inr \<lparr>resp_combo = Val c\<rparr>)
         \<and> components c = Val \<lparr>comp_a = Val ''Nike'', comp_b = Val ''Adidas''\<rparr>
         \<and> combo_mode c = Val ''fusion'')"
proof -
  let ?be = "(example_backend Undefined)\<lparr>post_generate := backend_generate (example_combo Undefined)\<rparr>"
  have ta: "trim '' Nike'' = ''Nike''" by (simp add: trim_def is_space_def)
  have tb: "trim ''Adidas '' = ''Adidas''" by (simp add: trim_def is_space_def)
  have na: "trim '' Nike'' \<noteq> []" by (simp add: ta)
  have nb: "trim ''Adidas '' \<noteq> []" by (simp add: tb)
  have ne: "toLowerCase ''Nike'' \<noteq> toLowerCase ''Adidas''" by (simp add: toLowerCase_def)
  then have d: "toLowerCase (trim '' Nike'') \<noteq> toLowerCase (trim ''Adidas '')"
    by (simp only: ta tb simp_thms)
  have md: "''fusion'' \<in> set [''competitive'', ''collaborative'', ''fusion'']" by simp
  have pg: "post_generate ?be = backend_generate (example_combo Undefined)" by simp
  from generateCombo_echoes_names_and_mode[OF na nb d md pg, of store_up "[]"]
  have "\<exists>calls tbl' c.
         apiService_generateCombo ?be store_up '' Nike'' ''Adidas '' (Some ''fusion'') []
           = (PostGenerate \<lparr>req_product1 = trim '' Nike'', req_product2 = trim ''Adidas '',
                req_mode = ''fusion''\<rparr> # calls, tbl', Inr \<lparr>resp_combo = Val c\<rparr>)
         \<and> components c = Val \<lparr>comp_a = Val (trim '' Nike''), comp_b = Val (trim ''Adidas '')\<rparr>
         \<and> combo_mode c = Val ''fusion''"
    by (rule conjunct1)
  then show ?thesis unfolding ta tb using ta tb ne by simp
qed

section \<open>The votes counter\<close>

lemma new_row_votes:
  "new_row srv c tbl = Inr r \<Longrightarrow> ins_votes c = Val 0 \<Longrightarrow> votes r = Some 0"
  by (auto simp: new_row_def int4_column_def int4_max_def int4_min_def
      split: sum.splits if_splits)

lemma createCombo_appends:
  assumes "supabaseOperations_createCombo srv c tbl = (calls, tbl', res)" and "ins_votes c = Val 0"
  shows "tbl' = tbl \<or> (\<exists>r. tbl' = tbl @ [r] \<and> votes r = Some 0)"
proof (cases "new_row srv c tbl")
  case (Inl e)
  with assms(1) show ?thesis
    by (auto simp: supabaseOperations_createCombo_def split: if_splits)
next
  case (Inr r)
  from new_row_votes[OF Inr assms(2)] Inr assms(1) show ?thesis
    by (auto simp: supabaseOperations_createCombo_def split: if_splits)
qed

lemma save_appends:
  assumes "save_to_supabase srv response tbl = (calls, tbl', res)"
  shows "tbl' = tbl \<or> (\<exists>r. tbl' = tbl @ [r] \<and> votes r = Some 0)"
proof (cases "resp_combo response")
  case (Val c)
  show ?thesis
  proof (cases "components c")
    case (Val cs)
    with \<open>resp_combo response = Val c\<close> assms show ?thesis
      by (auto simp: save_to_supabase_def dest!: createCombo_appends)
  qed (use \<open>resp_combo response = Val c\<close> assms in \<open>auto simp: save_to_supabase_def\<close>)
qed (use assms in \<open>auto simp: save_to_supabase_def\<close>)

lemma generateCombo_appends:
  assumes "apiService_generateCombo be srv p1 p2 m tbl = (calls, tbl', res)"
  shows "tbl' = tbl \<or> (\<exists>r. tbl' = tbl @ [r] \<and> votes r = Some 0)"
proof (cases "post_generate be \<lparr>req_product1 = trim p1, req_product2 = trim p2,
                req_mode = (case m of None \<Rightarrow> ''competitive'' | Some x \<Rightarrow> x)\<rparr>")
  case (Inl e)
  with assms show ?thesis by (simp add: apiService_generateCombo_def)
next
  case (Inr response)
  obtain cs t s where sv: "save_to_supabase srv response tbl = (cs, t, s)"
    by (rule prod_cases3)
  with Inr assms have "tbl' = t" by (simp add: apiService_generateCombo_def)
  with save_appends[OF sv] show ?thesis by simp
qed

lemma increment_votes_grows:
  "increment_votes ts cid tbl = Inr tbl' \<Longrightarrow> list_all2 grown tbl tbl'"
proof (induction tbl arbitrary: tbl')
  case Nil
  then show ?case by simp
next
  case (Cons r rs)
  then show ?case
    by (auto simp: grown_def int4_plus_def split: if_splits sum.splits option.splits)
qed

lemma list_all2_grown_refl: "list_all2 grown tbl tbl"
  by (simp add: list_all2_same grown_def)

lemma supabase_vote_grows:
  assumes "supabaseOperations_voteForCombo srv i tbl = (calls, tbl', res)"
  shows "list_all2 grown tbl tbl'"
  using assms
  by (auto simp: supabaseOperations_voteForCombo_def list_all2_grown_refl
      split: if_splits sum.splits dest: increment_votes_grows)

lemma voteForCombo_grows:
  assumes "apiService_voteForCombo be srv i tbl = (calls, tbl', res)"
  shows "list_all2 grown tbl tbl'"
proof -
  obtain cs t s where sv: "supabaseOperations_voteForCombo srv i tbl = (cs, t, s)"
    by (rule prod_cases3)
  with assms have "tbl' = t" by (cases s) (auto simp: apiService_voteForCombo_def)
  with supabase_vote_grows[OF sv] show ?thesis by simp
qed

lemma grown_keeps_counter:
  assumes "list_all2 grown tbl tbl'" and "list_all (\<lambda>r. \<exists>v. votes r = Some v \<and> 0 \<le> v) tbl"
  shows "list_all (\<lambda>r. \<exists>v. votes r = Some v \<and> 0 \<le> v) tbl'"
  using assms by (induction rule: list_all2_induct) (auto simp: grown_def)

lemma reachable_counters:
  "reachable tbl \<Longrightarrow> list_all (\<lambda>r. \<exists>v. votes r = Some v \<and> 0 \<le> v) tbl"
proof (induction rule: reachable.induct)
  case migrated
  show ?case by simp
next
  case (generated tbl be srv p1 p2 m calls tbl' res)
  from generateCombo_appends[OF generated.hyps(2)] generated.IH show ?case by auto
next
  case (voted tbl be srv i calls tbl' res)
  from voteForCombo_grows[OF voted.hyps(2)] voted.IH show ?case by (rule grown_keeps_counter)
qed

text \<open>
  C8. Every table the client can reach from the empty one has in every row a \<open>votes\<close>
  that is an integer and not negative. \<open>generateCombo\<close> leaves the table as it was or
  appends one row whose \<open>votes\<close> is 0. \<open>voteForCombo\<close> keeps the rows in place and leaves
  each row's \<open>votes\<close> as it was or one higher; nothing else writes \<open>votes\<close>, and nothing
  lowers it.
\<close>

theorem votes_start_at_zero_and_only_grow:
  "(reachable tbl \<longrightarrow> (\<forall>r \<in> set tbl. \<exists>v. votes r = Some v \<and> 0 \<le> v))
   \<and> (apiService_generateCombo be srv p1 p2 m tbl = (calls, tbl', res)
        \<longrightarrow> tbl' = tbl \<or> (\<exists>r. tbl' = tbl @ [r] \<and> votes r = Some 0))
   \<and> (apiService_voteForCombo be srv i tbl = (calls2, tbl2, res2)
        \<longrightarrow> length tbl2 = length tbl
            \<and> (\<forall>j < length tbl. votes (tbl2 ! j) = votes (tbl ! j)
                  \<or> (\<exists>v. votes (tbl ! j) = Some v \<and> votes (tbl2 ! j) = Some (v + 1))))"
proof (intro conjI impI)
  assume "reachable tbl"
  then show "\<forall>r \<in> set tbl. \<exists>v. votes r = Some v \<and> 0 \<le> v"
    using reachable_counters by (simp add: list_all_iff)
next
  assume "apiService_generateCombo be srv p1 p2 m tbl = (calls, tbl', res)"
  then show "tbl' = tbl \<or> (\<exists>r. tbl' = tbl @ [r] \<and> votes r = Some 0)"
    by (rule generateCombo_appends)
next
  assume v: "apiService_voteForCombo be srv i tbl = (calls2, tbl2, res2)"
  from voteForCombo_grows[OF v] show "length tbl2 = length tbl"
    by (simp add: list_all2_lengthD)
  from voteForCombo_grows[OF v]
  show "\<forall>j < length tbl. votes (tbl2 ! j) = votes (tbl ! j)
          \<or> (\<exists>v. votes (tbl ! j) = Some v \<and> votes (tbl2 ! j) = Some (v + 1))"
    by (auto simp: list_all2_conv_all_nth grown_def)
qed

theorem votes_start_at_zero_and_only_grow_witness:
  "reachable [example_created]
   \<and> votes example_created = Some 0
   \<and> fst (snd (apiService_generateCombo (example_backend Undefined)
                  (store_up\<lparr>gen_random_uuid := 43\<rparr>) ''Nike'' ''Adidas'' None [example_created]))
       = [example_created, example_created\<lparr>row_id := 43\<rparr>]
   \<and> fst (snd (apiService_voteForCombo (example_backend Undefined)
                  (store_up\<lparr>gen_random_uuid := 43\<rparr>) 42 [example_created]))
       = [example_created\<lparr>votes := Some 1\<rparr>]"
proof -
  let ?be = "example_backend Undefined"
  let ?srv = "store_up\<lparr>gen_random_uuid := 43\<rparr>"
  obtain c0 r0 where g0: "apiService_generateCombo ?be store_up ''Nike'' ''Adidas'' None []
      = (c0, [example_created], r0)"
    by (simp add: apiService_generateCombo_def save_to_supabase_def example_backend_def
        example_combo_def supabaseOperations_createCombo_def store_up_def new_row_def
        int4_column_def int4_max_def int4_min_def not_null_def column_def example_created_def)
  have reach: "reachable [example_created]"
    by (rule reachable.generated[OF reachable.migrated g0])
  obtain c1 r1 where g1: "apiService_generateCombo ?be ?srv ''Nike'' ''Adidas'' None [example_created]
      = (c1, [example_created, example_created\<lparr>row_id := 43\<rparr>], r1)"
    by (simp add: apiService_generateCombo_def save_to_supabase_def example_backend_def
        example_combo_def supabaseOperations_createCombo_def store_up_def new_row_def
        int4_column_def int4_max_def int4_min_def not_null_def column_def example_created_def)
  obtain c2 r2 where v: "apiService_voteForCombo ?be ?srv 42 [example_created]
      = (c2, [example_created\<lparr>votes := Some 1\<rparr>], r2)"
    by (simp add: apiService_voteForCombo_def supabaseOperations_voteForCombo_def store_up_def
        example_created_def int4_plus_def int4_max_def int4_min_def)
  from votes_start_at_zero_and_only_grow[of "[example_created]" ?be ?srv "''Nike''" "''Adidas''"
      None c1 "[example_created, example_created\<lparr>row_id := 43\<rparr>]" r1 42 c2
      "[example_created\<lparr>votes := Some 1\<rparr>]" r2] reach
  have "\<forall>r \<in> set [example_created]. \<exists>v. votes r = Some v \<and> 0 \<le> v" by blast
  then have "\<exists>v. votes example_created = Some v \<and> 0 \<le> v" by simp
  moreover have "votes example_created = Some 0" by (simp add: example_created_def)
  ultimately show ?thesis using reach g1 v by simp
qed

section \<open>The average on the leaderboard\<close>

text \<open>
  C9. The guard of the average tests the length of the list of combos, not
  \<open>stats.totalCombos\<close>. When the leaderboard loads one combo and the statistics request
  fails, the statistics keep their initial zeros, the division 0 / 0 is performed and the
  number shown is \<open>NaN\<close>, not 0.
\<close>

theorem avgVotes_divides_by_zero_totalCombos:
  "totalCombos (lb_stats (snd (fetchStats (example_backend Undefined)
      (snd (fetchLeaderboard (example_backend Undefined) initial_leaderboard))))) = 0
   \<and> length (lb_combos (snd (fetchStats (example_backend Undefined)
      (snd (fetchLeaderboard (example_backend Undefined) initial_leaderboard))))) = 1
   \<and> avgVotes (snd (fetchStats (example_backend Undefined)
      (snd (fetchLeaderboard (example_backend Undefined) initial_leaderboard)))) = NaN"
  by (simp add: avgVotes_def fetchStats_def fetchLeaderboard_def api_getStats_def
      api_getLeaderboard_def example_backend_def initial_leaderboard_def js_divide_def
      Math_round_def)

end
